theory Spec2Isabelle
  imports Complex_Main "HOL-Library.Code_Target_Nat"
begin

section \<open>JavaScript values\<close>

text \<open>
  The values the client handles: what the backend sends as JSON, what the store keeps, and
  the two values JavaScript adds to JSON data, \<open>undefined\<close> and \<open>NaN\<close>.
  An object is the list of its own properties in key order.

  Numbers are exact rationals: binary64 rounding, the infinities and negative zero are
  outside this model. Object identity is outside it too: two objects with the same
  properties are the same value here. Properties inherited from a prototype (methods) are
  not values of this type.
\<close>

datatype jsval =
    JUndefined
  | JNull
  | JBool bool
  | JNum rat
  | JNaN
  | JStr string
  | JArr "jsval list"
  | JObj "(string \<times> jsval) list"

datatype js_exception = Error string | TypeError | SyntaxError

text \<open>\<open>typeof v\<close>.\<close>

fun js_typeof :: "jsval \<Rightarrow> string" where
  "js_typeof JUndefined = ''undefined''"
| "js_typeof JNull = ''object''"
| "js_typeof (JBool b) = ''boolean''"
| "js_typeof (JNum q) = ''number''"
| "js_typeof JNaN = ''number''"
| "js_typeof (JStr s) = ''string''"
| "js_typeof (JArr xs) = ''object''"
| "js_typeof (JObj kvs) = ''object''"

text \<open>Truthiness, as \<open>if (v)\<close>, \<open>v || w\<close> and \<open>!v\<close> read a value.\<close>

fun js_truthy :: "jsval \<Rightarrow> bool" where
  "js_truthy JUndefined = False"
| "js_truthy JNull = False"
| "js_truthy (JBool b) = b"
| "js_truthy (JNum q) = (q \<noteq> 0)"
| "js_truthy JNaN = False"
| "js_truthy (JStr s) = (s \<noteq> [])"
| "js_truthy (JArr xs) = True"
| "js_truthy (JObj kvs) = True"

text \<open>\<open>a === b\<close>: \<open>NaN\<close> equals nothing, not even itself.\<close>

definition js_strict_eq :: "jsval \<Rightarrow> jsval \<Rightarrow> bool" where
  "js_strict_eq a b = (a \<noteq> JNaN \<and> b \<noteq> JNaN \<and> a = b)"

subsection \<open>Decimal digits\<close>

definition digit_char :: "nat \<Rightarrow> char" where
  "digit_char d = ''0123456789'' ! (d mod 10)"

fun show_nat :: "nat \<Rightarrow> string" where
  "show_nat n = (if n < 10 then [digit_char n] else show_nat (n div 10) @ [digit_char (n mod 10)])"

declare show_nat.simps [simp del]

definition is_digit :: "char \<Rightarrow> bool" where
  "is_digit c = (c \<in> set ''0123456789'')"

definition digit_val :: "char \<Rightarrow> nat" where
  "digit_val c = of_char c - 48"

definition read_nat :: "string \<Rightarrow> nat" where
  "read_nat ds = foldl (\<lambda>a c. 10 * a + digit_val c) 0 ds"

text \<open>
  An array index as a property key: a canonical decimal numeral (no leading zero).
\<close>

definition parse_index :: "string \<Rightarrow> nat option" where
  "parse_index k =
     (if k \<noteq> [] \<and> list_all is_digit k \<and> (hd k \<noteq> CHR ''0'' \<or> length k = 1)
      then Some (read_nat k) else None)"

subsection \<open>Properties\<close>

text \<open>The own property \<open>k\<close> of an object, \<open>undefined\<close> when it has none.\<close>

fun obj_get :: "(string \<times> jsval) list \<Rightarrow> string \<Rightarrow> jsval" where
  "obj_get [] k = JUndefined"
| "obj_get ((k', v) # kvs) k = (if k' = k then v else obj_get kvs k)"

text \<open>
  \<open>o[k] = v\<close> on an object: an existing key keeps its place and takes the new value, a
  new key goes last. (JavaScript lists integer-like keys first, in ascending order;
  that reordering is not modelled.)
\<close>

fun obj_set :: "(string \<times> jsval) list \<Rightarrow> string \<Rightarrow> jsval \<Rightarrow> (string \<times> jsval) list" where
  "obj_set [] k v = [(k, v)]"
| "obj_set ((k', v') # kvs) k v = (if k' = k then (k, v) # kvs else (k', v') # obj_set kvs k v)"

text \<open>
  \<open>v[k]\<close> where \<open>v\<close> is neither \<open>null\<close> nor \<open>undefined\<close>: an object's own
  property, an array's or string's element or \<open>length\<close>, \<open>undefined\<close> otherwise.
\<close>

fun lookup_prop :: "jsval \<Rightarrow> string \<Rightarrow> jsval" where
  "lookup_prop (JObj kvs) k = obj_get kvs k"
| "lookup_prop (JArr xs) k =
     (if k = ''length'' then JNum (of_nat (length xs))
      else case parse_index k of
             Some i \<Rightarrow> if i < length xs then xs ! i else JUndefined
           | None \<Rightarrow> JUndefined)"
| "lookup_prop (JStr s) k =
     (if k = ''length'' then JNum (of_nat (length s))
      else case parse_index k of
             Some i \<Rightarrow> if i < length s then JStr [s ! i] else JUndefined
           | None \<Rightarrow> JUndefined)"
| "lookup_prop v k = JUndefined"

definition nullish :: "jsval \<Rightarrow> bool" where
  "nullish v = (v = JUndefined \<or> v = JNull)"

text \<open>\<open>v.k\<close>: reading a property of \<open>null\<close> or \<open>undefined\<close> throws a TypeError.\<close>

definition js_get :: "jsval \<Rightarrow> string \<Rightarrow> js_exception + jsval" where
  "js_get v k = (if nullish v then Inl TypeError else Inr (lookup_prop v k))"

text \<open>\<open>v?.k\<close>: \<open>undefined\<close> instead of the TypeError.\<close>

definition js_get_opt :: "jsval \<Rightarrow> string \<Rightarrow> jsval" where
  "js_get_opt v k = (if nullish v then JUndefined else lookup_prop v k)"

text \<open>
  The own enumerable properties a spread \<open>{...v}\<close> copies: an object's properties, an
  array's and a string's elements under their indices, nothing for any other value.
\<close>

fun indexed :: "nat \<Rightarrow> jsval list \<Rightarrow> (string \<times> jsval) list" where
  "indexed i [] = []"
| "indexed i (x # xs) = (show_nat i, x) # indexed (Suc i) xs"

fun own_props :: "jsval \<Rightarrow> (string \<times> jsval) list" where
  "own_props (JObj kvs) = kvs"
| "own_props (JArr xs) = indexed 0 xs"
| "own_props (JStr s) = indexed 0 (map (\<lambda>c. JStr [c]) s)"
| "own_props v = []"

text \<open>\<open>{...base, ...v}\<close>: the properties of \<open>v\<close> set on \<open>base\<close> one after the other.\<close>

definition spread :: "(string \<times> jsval) list \<Rightarrow> jsval \<Rightarrow> (string \<times> jsval) list" where
  "spread base v = foldl (\<lambda>acc (k, x). obj_set acc k x) base (own_props v)"

subsection \<open>Numbers and strings\<close>

text \<open>
  \<open>String(q)\<close> for a number: the decimal expansion, without trailing zeros. An
  expansion that does not end is cut after 20 fractional digits, and the exponent
  notation JavaScript uses from \<open>1e21\<close> on and below \<open>1e-6\<close> is not modelled.
\<close>

fun frac_digits :: "nat \<Rightarrow> rat \<Rightarrow> string" where
  "frac_digits 0 f = []"
| "frac_digits (Suc k) f =
     (if f = 0 then []
      else (let d = nat \<lfloor>f * 10\<rfloor> in digit_char d # frac_digits k (f * 10 - of_nat d)))"

definition numToString :: "rat \<Rightarrow> string" where
  "numToString q =
     (let a = \<bar>q\<bar>; ip = nat \<lfloor>a\<rfloor>; fs = frac_digits 20 (a - of_nat ip)
      in (if q < 0 then ''-'' else []) @ show_nat ip @ (if fs = [] then [] else CHR ''.'' # fs))"

fun join_with :: "string \<Rightarrow> string list \<Rightarrow> string" where
  "join_with sep [] = []"
| "join_with sep [x] = x"
| "join_with sep (x # y # ys) = x @ sep @ join_with sep (y # ys)"

text \<open>
  \<open>String(v)\<close>: an array joins its elements with commas, \<open>null\<close> and \<open>undefined\<close>
  elements as empty strings.
\<close>

fun js_toString :: "jsval \<Rightarrow> string" where
  "js_toString JUndefined = ''undefined''"
| "js_toString JNull = ''null''"
| "js_toString (JBool b) = (if b then ''true'' else ''false'')"
| "js_toString (JNum q) = numToString q"
| "js_toString JNaN = ''NaN''"
| "js_toString (JStr s) = s"
| "js_toString (JArr xs) =
     join_with '','' (map (\<lambda>x. if x = JUndefined \<or> x = JNull then [] else js_toString x) xs)"
| "js_toString (JObj kvs) = ''[object Object]''"

text \<open>
  \<open>Number(s)\<close> for a string: white space around it is dropped, the empty string is 0,
  a signed decimal literal with an optional fraction and exponent is its value, anything
  else is \<open>NaN\<close> (\<open>None\<close>). Hexadecimal, octal and binary literals and \<open>Infinity\<close> are
  not modelled: they read as \<open>NaN\<close> here.
\<close>

definition is_space :: "char \<Rightarrow> bool" where
  "is_space c = (c \<in> set [CHR '' '', CHR 0x09, CHR 0x0A, CHR 0x0B, CHR 0x0C, CHR 0x0D])"

definition trim :: "string \<Rightarrow> string" where
  "trim s = rev (dropWhile is_space (rev (dropWhile is_space s)))"

definition is_exp_mark :: "char \<Rightarrow> bool" where
  "is_exp_mark c = (c = CHR ''e'' \<or> c = CHR ''E'')"

definition read_exponent :: "string \<Rightarrow> int option" where
  "read_exponent s =
     (case s of
        [] \<Rightarrow> None
      | c # cs \<Rightarrow>
          (let ds = (if c = CHR ''+'' \<or> c = CHR ''-'' then cs else s)
           in if ds \<noteq> [] \<and> list_all is_digit ds
              then Some (if c = CHR ''-'' then - int (read_nat ds) else int (read_nat ds))
              else None))"

definition scale10 :: "rat \<Rightarrow> int \<Rightarrow> rat" where
  "scale10 q e = (if e < 0 then q / 10 ^ nat (- e) else q * 10 ^ nat e)"

definition read_decimal :: "string \<Rightarrow> rat option" where
  "read_decimal s =
     (let mant = takeWhile (\<lambda>c. \<not> is_exp_mark c) s;
          ex = dropWhile (\<lambda>c. \<not> is_exp_mark c) s;
          ip = takeWhile (\<lambda>c. c \<noteq> CHR ''.'') mant;
          fp = drop 1 (dropWhile (\<lambda>c. c \<noteq> CHR ''.'') mant)
      in if list_all is_digit ip \<and> list_all is_digit fp \<and> (ip \<noteq> [] \<or> fp \<noteq> [])
         then (let m = of_nat (read_nat ip) + of_nat (read_nat fp) / 10 ^ length fp
               in if ex = [] then Some m
                  else map_option (scale10 m) (read_exponent (tl ex)))
         else None)"

definition string_to_number :: "string \<Rightarrow> rat option" where
  "string_to_number s =
     (case trim s of
        [] \<Rightarrow> Some 0
      | c # cs \<Rightarrow>
          if c = CHR ''-'' then map_option uminus (read_decimal cs)
          else if c = CHR ''+'' then read_decimal cs
          else read_decimal (c # cs))"

text \<open>\<open>Number(v)\<close>; \<open>None\<close> is \<open>NaN\<close>.\<close>

fun ToNumber :: "jsval \<Rightarrow> rat option" where
  "ToNumber JUndefined = None"
| "ToNumber JNull = Some 0"
| "ToNumber (JBool b) = Some (if b then 1 else 0)"
| "ToNumber (JNum q) = Some q"
| "ToNumber JNaN = None"
| "ToNumber (JStr s) = string_to_number s"
| "ToNumber (JArr xs) = string_to_number (js_toString (JArr xs))"
| "ToNumber (JObj kvs) = None"


definition js_isNaN :: "jsval \<Rightarrow> bool" where
  "js_isNaN v = (ToNumber v = None)"






fun starts_with :: "string \<Rightarrow> string \<Rightarrow> bool" where
  "starts_with s [] = True"
| "starts_with [] (p # ps) = False"
| "starts_with (c # cs) (p # ps) = (c = p \<and> starts_with cs ps)"







section \<open>The store (nlqStore)\<close>

record settings =
  autoExecute :: bool
  showExplanation :: bool
  maxResults :: nat
  enableSuggestions :: bool
  enableCharts :: bool
  chartType :: string

record store =
  queryHistory :: "jsval list"
  currentQuery :: string
  isProcessing :: bool
  currentLanguage :: string
  currentResult :: jsval
  queryError :: jsval
  theme :: string
  fontSize :: string
  currentView :: string
  settings :: settings
  schema :: jsval
  schemaLoading :: bool
  serviceHealth :: jsval

definition initial_settings :: settings where
  "initial_settings =
     \<lparr>autoExecute = True, showExplanation = True, maxResults = 1000,
      enableSuggestions = True, enableCharts = True, chartType = ''table''\<rparr>"

definition initial_store :: store where
  "initial_store =
     \<lparr>queryHistory = [], currentQuery = '''', isProcessing = False, currentLanguage = ''en'',
      currentResult = JNull, queryError = JNull, theme = ''light'', fontSize = ''medium'',
      currentView = ''dashboard'', settings = initial_settings, schema = JNull,
      schemaLoading = False, serviceHealth = JNull\<rparr>"

definition setCurrentQuery :: "string \<Rightarrow> store \<Rightarrow> store" where
  "setCurrentQuery query st = st\<lparr>currentQuery := query\<rparr>"

definition setProcessing :: "bool \<Rightarrow> store \<Rightarrow> store" where
  "setProcessing b st = st\<lparr>isProcessing := b\<rparr>"

text \<open>
  \<open>addToHistory(queryData)\<close>. \<open>now\<close> is what \<open>Date.now()\<close> returns at the call and
  \<open>stamp\<close> what \<open>new Date().toISOString()\<close> returns.
\<close>

definition newEntry :: "nat \<Rightarrow> string \<Rightarrow> jsval \<Rightarrow> jsval" where
  "newEntry now stamp queryData =
     JObj (spread [(''id'', JNum (of_nat now)), (''timestamp'', JStr stamp)] queryData)"

definition addToHistory :: "nat \<Rightarrow> string \<Rightarrow> jsval \<Rightarrow> store \<Rightarrow> store" where
  "addToHistory now stamp queryData st =
     st\<lparr>queryHistory := take 100 (newEntry now stamp queryData # queryHistory st)\<rparr>"

text \<open>A sequence of \<open>addToHistory\<close> calls, each with its clock readings and its argument.\<close>

type_synonym history_call = "nat \<times> string \<times> jsval"

definition entry_of :: "history_call \<Rightarrow> jsval" where
  "entry_of c = (case c of (now, stamp, queryData) \<Rightarrow> newEntry now stamp queryData)"

definition addToHistory_calls :: "history_call list \<Rightarrow> store \<Rightarrow> store" where
  "addToHistory_calls calls st =
     foldl (\<lambda>s (now, stamp, queryData). addToHistory now stamp queryData s) st calls"

definition clearHistory :: "store \<Rightarrow> store" where
  "clearHistory st = st\<lparr>queryHistory := []\<rparr>"

text \<open>
  \<open>removeFromHistory(id)\<close>: \<open>queryHistory.filter(entry => entry.id !== id)\<close>. The
  callback reads \<open>entry.id\<close>, which throws on an element that is \<open>null\<close> or
  \<open>undefined\<close>; the store is then left as it was.
\<close>

fun filter_by_id :: "jsval \<Rightarrow> jsval list \<Rightarrow> js_exception + jsval list" where
  "filter_by_id ident [] = Inr []"
| "filter_by_id ident (entry # rest) =
     (case js_get entry ''id'' of
        Inl err \<Rightarrow> Inl err
      | Inr v \<Rightarrow>
          (case filter_by_id ident rest of
             Inl err \<Rightarrow> Inl err
           | Inr kept \<Rightarrow> Inr (if \<not> js_strict_eq v ident then entry # kept else kept)))"

definition removeFromHistory :: "jsval \<Rightarrow> store \<Rightarrow> js_exception + store" where
  "removeFromHistory ident st =
     (case filter_by_id ident (queryHistory st) of
        Inl err \<Rightarrow> Inl err
      | Inr kept \<Rightarrow> Inr (st\<lparr>queryHistory := kept\<rparr>))"

definition setCurrentResult :: "jsval \<Rightarrow> store \<Rightarrow> store" where
  "setCurrentResult result st = st\<lparr>currentResult := result, queryError := JNull\<rparr>"

definition setQueryError :: "jsval \<Rightarrow> store \<Rightarrow> store" where
  "setQueryError err st = st\<lparr>queryError := err, currentResult := JNull\<rparr>"

definition clearResult :: "store \<Rightarrow> store" where
  "clearResult st = st\<lparr>currentResult := JNull, queryError := JNull\<rparr>"

text \<open>How many of the current result and the current error are not \<open>null\<close>.\<close>

definition non_null_count :: "store \<Rightarrow> nat" where
  "non_null_count st =
     (if currentResult st \<noteq> JNull then 1 else 0) + (if queryError st \<noteq> JNull then 1 else 0)"


section \<open>JSON text\<close>

text \<open>
  \<open>JSON.stringify(v, null, 2)\<close> and \<open>JSON.parse(text)\<close>, on texts that are strings of
  8-bit characters: a character is one code unit, and \<open>\\u\<close> escapes above \<open>00FF\<close>
  are outside this model (the reader refuses them).
\<close>

subsection \<open>Strings\<close>


definition hex_val :: "char \<Rightarrow> nat option" where
  "hex_val c =
     (let n = (of_char c :: nat)
      in if 48 \<le> n \<and> n \<le> 57 then Some (n - 48)
         else if 97 \<le> n \<and> n \<le> 102 then Some (n - 87)
         else if 65 \<le> n \<and> n \<le> 70 then Some (n - 55)
         else None)"

definition hex4 :: "char \<Rightarrow> char \<Rightarrow> char \<Rightarrow> char \<Rightarrow> nat option" where
  "hex4 a b c d =
     (case (hex_val a, hex_val b, hex_val c, hex_val d) of
        (Some w, Some x, Some y, Some z) \<Rightarrow> Some (((w * 16 + x) * 16 + y) * 16 + z)
      | _ \<Rightarrow> None)"



text \<open>
  Reading a string after its opening quote: the characters up to the closing quote, with
  the escapes resolved, and the text after it. A raw control character ends the reading
  with a failure, as does an escape that JSON does not know.
\<close>

definition unescape :: "char \<Rightarrow> char option" where
  "unescape e =
     (if e = CHR 0x22 then Some (CHR 0x22)
      else if e = CHR 0x5C then Some (CHR 0x5C)
      else if e = CHR ''/'' then Some (CHR ''/'')
      else if e = CHR ''b'' then Some (CHR 0x08)
      else if e = CHR ''f'' then Some (CHR 0x0C)
      else if e = CHR ''n'' then Some (CHR 0x0A)
      else if e = CHR ''r'' then Some (CHR 0x0D)
      else if e = CHR ''t'' then Some (CHR 0x09)
      else None)"

fun parse_chars :: "string \<Rightarrow> (string \<times> string) option" where
  "parse_chars [] = None"
| "parse_chars (c # cs) =
     (if c = CHR 0x22 then Some ([], cs)
      else if c = CHR 0x5C then
        (case cs of
           [] \<Rightarrow> None
         | e # r \<Rightarrow>
             if e = CHR ''u'' then
               (case r of
                  h1 # h2 # h3 # h4 # r' \<Rightarrow>
                    (case hex4 h1 h2 h3 h4 of
                       None \<Rightarrow> None
                     | Some n \<Rightarrow>
                         if n < 256
                         then map_option (\<lambda>(s, t). (char_of n # s, t)) (parse_chars r')
                         else None)
                | _ \<Rightarrow> None)
             else
               (case unescape e of
                  None \<Rightarrow> None
                | Some d \<Rightarrow> map_option (\<lambda>(s, t). (d # s, t)) (parse_chars r)))
      else if (of_char c :: nat) < 32 then None
      else map_option (\<lambda>(s, t). (c # s, t)) (parse_chars cs))"

subsection \<open>Numbers\<close>

text \<open>
  A JSON number: an optional minus sign, an integer part without a leading zero, an
  optional fraction and an optional exponent. Each part returns what it read and the
  text after it.
\<close>

definition parse_frac :: "string \<Rightarrow> (string \<times> string) option" where
  "parse_frac s =
     (case s of
        [] \<Rightarrow> Some ([], s)
      | c # t \<Rightarrow>
          if c = CHR ''.''
          then (if takeWhile is_digit t = [] then None
                else Some (takeWhile is_digit t, dropWhile is_digit t))
          else Some ([], s))"

definition parse_exp :: "string \<Rightarrow> (int \<times> string) option" where
  "parse_exp s =
     (case s of
        [] \<Rightarrow> Some (0, s)
      | c # t \<Rightarrow>
          if is_exp_mark c
          then (let neg = (t \<noteq> [] \<and> hd t = CHR ''-'');
                    ds = (if t \<noteq> [] \<and> (hd t = CHR ''+'' \<or> hd t = CHR ''-'') then tl t else t)
                in if takeWhile is_digit ds = [] then None
                   else Some (if neg then - int (read_nat (takeWhile is_digit ds))
                              else int (read_nat (takeWhile is_digit ds)),
                              dropWhile is_digit ds))
          else Some (0, s))"

definition parse_unsigned :: "string \<Rightarrow> (rat \<times> string) option" where
  "parse_unsigned s =
     (let ip = takeWhile is_digit s
      in if ip = [] \<or> (1 < length ip \<and> hd ip = CHR ''0'') then None
         else (case parse_frac (dropWhile is_digit s) of
                 None \<Rightarrow> None
               | Some (fp, s3) \<Rightarrow>
                   (case parse_exp s3 of
                      None \<Rightarrow> None
                    | Some (e, s4) \<Rightarrow>
                        Some (scale10 (of_nat (read_nat ip)
                                         + of_nat (read_nat fp) / 10 ^ length fp) e, s4))))"

definition parse_number :: "string \<Rightarrow> (rat \<times> string) option" where
  "parse_number s =
     (case s of
        [] \<Rightarrow> None
      | c # t \<Rightarrow>
          if c = CHR ''-'' then map_option (\<lambda>(q, r). (- q, r)) (parse_unsigned t)
          else parse_unsigned s)"

subsection \<open>Values\<close>




text \<open>White space between the tokens of a text.\<close>

definition is_ws :: "char \<Rightarrow> bool" where
  "is_ws c = (c = CHR '' '' \<or> c = CHR 0x09 \<or> c = CHR 0x0A \<or> c = CHR 0x0D)"

definition skip_ws :: "string \<Rightarrow> string" where
  "skip_ws s = dropWhile is_ws s"

text \<open>
  The members of an object are defined one after the other, so of two members with the
  same key the later value stands, at the place of the first.
\<close>

definition from_members :: "(string \<times> jsval) list \<Rightarrow> (string \<times> jsval) list" where
  "from_members kvs = foldl (\<lambda>acc (k, v). obj_set acc k v) [] kvs"

text \<open>
  Reading a value, the elements of an array after its bracket, and the members of an
  object after its brace. Each returns what it read and the text after it, or fails. The
  first argument bounds the number of nested calls; \<open>JSON_parse\<close> starts with twice
  the length of the text, which no text uses up.
\<close>

fun parse_value :: "nat \<Rightarrow> string \<Rightarrow> (jsval \<times> string) option"
and parse_elements :: "nat \<Rightarrow> string \<Rightarrow> (jsval list \<times> string) option"
and parse_members :: "nat \<Rightarrow> string \<Rightarrow> ((string \<times> jsval) list \<times> string) option"
where
  "parse_value 0 s = None"
| "parse_value (Suc n) s =
     (case skip_ws s of
        [] \<Rightarrow> None
      | c # cs \<Rightarrow>
          if c = CHR 0x22 then map_option (\<lambda>(str, r). (JStr str, r)) (parse_chars cs)
          else if c = CHR ''['' then
            (case skip_ws cs of
               [] \<Rightarrow> None
             | d # ds \<Rightarrow>
                 if d = CHR '']'' then Some (JArr [], ds)
                 else map_option (\<lambda>(vs, r). (JArr vs, r)) (parse_elements n cs))
          else if c = CHR ''{'' then
            (case skip_ws cs of
               [] \<Rightarrow> None
             | d # ds \<Rightarrow>
                 if d = CHR ''}'' then Some (JObj [], ds)
                 else map_option (\<lambda>(ms, r). (JObj (from_members ms), r)) (parse_members n cs))
          else if starts_with (c # cs) ''true'' then Some (JBool True, drop 4 (c # cs))
          else if starts_with (c # cs) ''false'' then Some (JBool False, drop 5 (c # cs))
          else if starts_with (c # cs) ''null'' then Some (JNull, drop 4 (c # cs))
          else map_option (\<lambda>(q, r). (JNum q, r)) (parse_number (c # cs)))"
| "parse_elements 0 s = None"
| "parse_elements (Suc n) s =
     (case parse_value n s of
        None \<Rightarrow> None
      | Some (v, r) \<Rightarrow>
          (case skip_ws r of
             [] \<Rightarrow> None
           | c # cs \<Rightarrow>
               if c = CHR '','' then map_option (\<lambda>(vs, r'). (v # vs, r')) (parse_elements n cs)
               else if c = CHR '']'' then Some ([v], cs)
               else None))"
| "parse_members 0 s = None"
| "parse_members (Suc n) s =
     (case skip_ws s of
        [] \<Rightarrow> None
      | q # cs \<Rightarrow>
          if q \<noteq> CHR 0x22 then None
          else
            (case parse_chars cs of
               None \<Rightarrow> None
             | Some (k, r) \<Rightarrow>
                 (case skip_ws r of
                    [] \<Rightarrow> None
                  | c # r1 \<Rightarrow>
                      if c \<noteq> CHR '':'' then None
                      else
                        (case parse_value n r1 of
                           None \<Rightarrow> None
                         | Some (v, r2) \<Rightarrow>
                             (case skip_ws r2 of
                                [] \<Rightarrow> None
                              | d # r3 \<Rightarrow>
                                  if d = CHR '','' then
                                    map_option (\<lambda>(ms, r'). ((k, v) # ms, r')) (parse_members n r3)
                                  else if d = CHR ''}'' then Some ([(k, v)], r3)
                                  else None)))))"

text \<open>
  \<open>JSON.parse(text)\<close>: the value of the text, or a SyntaxError when the text is not one
  JSON value with nothing but white space around it.
\<close>

definition JSON_parse :: "string \<Rightarrow> js_exception + jsval" where
  "JSON_parse s =
     (case parse_value (2 * length s + 2) s of
        None \<Rightarrow> Inl SyntaxError
      | Some (v, r) \<Rightarrow> if skip_ws r = [] then Inr v else Inl SyntaxError)"





subsection \<open>Export and import of the history\<close>

text \<open>\<open>Array.isArray(v)\<close>.\<close>

fun isArray :: "jsval \<Rightarrow> bool" where
  "isArray (JArr xs) = True"
| "isArray v = False"



text \<open>
  \<open>importHistory(file)\<close>. The reader either fails or loads the file's text; the promise
  is rejected with an error or resolved with the parsed array.
\<close>

datatype file_read = ReadFailed | Loaded string

definition importHistory :: "file_read \<Rightarrow> store \<Rightarrow> (js_exception + jsval list) \<times> store" where
  "importHistory upload st =
     (case upload of
        ReadFailed \<Rightarrow> (Inl (Error ''Failed to read file''), st)
      | Loaded contents \<Rightarrow>
          (case JSON_parse contents of
             Inl err \<Rightarrow> (Inl (Error ''Failed to parse file''), st)
           | Inr parsed \<Rightarrow>
               (case parsed of
                  JArr entries \<Rightarrow> (Inr entries, st\<lparr>queryHistory := entries\<rparr>)
                | _ \<Rightarrow> (Inl (Error ''Invalid file format''), st))))"

section \<open>The result view (QueryResult)\<close>

text \<open>
  A column descriptor \<open>{name, type}\<close>; \<open>type\<close> is \<open>undefined\<close> when the backend
  declares none. A row is a record keyed by column name. Of the result payload the view
  reads \<open>success\<close>, \<open>data\<close> and \<open>columns\<close>; \<open>data\<close> and \<open>columns\<close> are \<open>None\<close> when
  the payload has none (\<open>undefined\<close> or \<open>null\<close>).
\<close>

record column =
  name :: string
  type :: jsval

type_synonym row = "(string \<times> jsval) list"

record payload =
  success :: jsval
  data :: "row list option"
  columns :: "column list option"




text \<open>\<open>data?.[0]?.[col.name]\<close>.\<close>

definition first_value :: "payload \<Rightarrow> column \<Rightarrow> jsval" where
  "first_value r col =
     (case data r of
        None \<Rightarrow> JUndefined
      | Some [] \<Rightarrow> JUndefined
      | Some (row0 # rest) \<Rightarrow> obj_get row0 (name col))"

definition numericColumns :: "payload \<Rightarrow> column list" where
  "numericColumns r =
     (case columns r of
        None \<Rightarrow> []
      | Some cols \<Rightarrow>
          filter (\<lambda>col. js_strict_eq (type col) (JStr ''number'')
                       \<or> js_typeof (first_value r col) = ''number'') cols)"

definition categoricalColumns :: "payload \<Rightarrow> column list" where
  "categoricalColumns r =
     (case columns r of
        None \<Rightarrow> []
      | Some cols \<Rightarrow>
          filter (\<lambda>col. js_strict_eq (type col) (JStr ''string'')
                       \<or> js_typeof (first_value r col) = ''string'') cols)"

















text \<open>
  A payload with a column declared \<open>number\<close> whose first value is a string, and a
  column with no declared type whose first value is a boolean.
\<close>

definition two_class_payload :: payload where
  "two_class_payload =
     \<lparr>success = JBool True,
      data = Some [[(''rate'', JStr ''12.345''), (''active'', JBool True)]],
      columns = Some [\<lparr>name = ''rate'', type = JStr ''number''\<rparr>,
                      \<lparr>name = ''active'', type = JUndefined\<rparr>]\<rparr>"






section \<open>The HTTP client (api)\<close>

text \<open>
  The response interceptor's error handler. It is given the error object of the HTTP
  library, with the properties \<open>response\<close> (\<open>{status, data}\<close>, when the server
  answered), \<open>request\<close> (when the request was sent) and \<open>message\<close>, and always throws.
\<close>

definition server_message :: "jsval \<Rightarrow> string \<Rightarrow> js_exception" where
  "server_message d fallback =
     (case js_get d ''message'' of
        Inl err \<Rightarrow> err
      | Inr m \<Rightarrow> Error (if js_truthy m then js_toString m else fallback))"

definition responseError :: "jsval \<Rightarrow> js_exception" where
  "responseError error =
     (case js_get error ''response'' of
        Inl err \<Rightarrow> err
      | Inr response \<Rightarrow>
          if js_truthy response then
            (let status = lookup_prop response ''status'';
                 d = lookup_prop response ''data''
             in if js_strict_eq status (JNum 400) then server_message d ''Bad Request''
                else if js_strict_eq status (JNum 401) then Error ''Unauthorized access''
                else if js_strict_eq status (JNum 403) then Error ''Forbidden access''
                else if js_strict_eq status (JNum 404) then Error ''Resource not found''
                else if js_strict_eq status (JNum 429)
                  then Error ''Rate limit exceeded. Please try again later.''
                else if js_strict_eq status (JNum 500) then Error ''Internal server error''
                else server_message d (''Request failed with status '' @ js_toString status))
          else if js_truthy (lookup_prop error ''request'')
            then Error ''Network error. Please check your connection.''
          else (let m = lookup_prop error ''message''
                in Error (if js_truthy m then js_toString m
                          else ''An unexpected error occurred'')))"

text \<open>The error object for an answer of the server with a status and a body.\<close>

definition http_error :: "nat \<Rightarrow> jsval \<Rightarrow> jsval" where
  "http_error status d =
     JObj [(''message'', JStr ''Request failed''),
           (''request'', JObj []),
           (''response'', JObj [(''status'', JNum (of_nat status)), (''data'', d)])]"

text \<open>The fixed message of a status, as the \<open>switch\<close> lists them.\<close>

definition fixed_message :: "nat \<Rightarrow> string" where
  "fixed_message status =
     (if status = 400 then ''Bad Request''
      else if status = 401 then ''Unauthorized access''
      else if status = 403 then ''Forbidden access''
      else if status = 404 then ''Resource not found''
      else if status = 429 then ''Rate limit exceeded. Please try again later.''
      else if status = 500 then ''Internal server error''
      else ''Request failed with status '' @ show_nat status)"

text \<open>\<open>errorHandler.getErrorMessage(error)\<close> for a thrown exception. The text an engine
  gives a TypeError is not modelled: it stands as \<open>TypeError\<close>.\<close>

definition getErrorMessage :: "js_exception \<Rightarrow> string" where
  "getErrorMessage err =
     (case err of
        Error msg \<Rightarrow> if msg \<noteq> [] then msg else ''An unexpected error occurred''
      | TypeError \<Rightarrow> ''TypeError''
      | SyntaxError \<Rightarrow> ''SyntaxError'')"

section \<open>The chat (ChatInterface)\<close>

text \<open>
  The component's input text with the store, and what leaves the component: the calls of
  \<open>nlqAPI.processQuery(query, {language, ...settings})\<close> and the notifications.
\<close>

record api_call =
  call_query :: string
  call_language :: string
  call_settings :: settings

datatype toast = ToastSuccess string | ToastError string

record chat =
  inputValue :: string
  nlq :: store
  requests :: "api_call list"
  toasts :: "toast list"

text \<open>
  \<open>handleSubmit\<close> up to its \<open>await\<close>. \<open>now\<close> and \<open>stamp\<close> are the clock readings of
  \<open>addToHistory\<close>, \<open>stamp'\<close> the handler's own \<open>new Date().toISOString()\<close>. The
  handler reads \<open>isProcessing\<close>, \<open>currentLanguage\<close> and \<open>settings\<close> as the component
  last rendered them, here the store's.
\<close>

definition handleSubmit :: "nat \<Rightarrow> string \<Rightarrow> string \<Rightarrow> chat \<Rightarrow> chat" where
  "handleSubmit now stamp stamp' c =
     (if trim (inputValue c) = [] \<or> isProcessing (nlq c) then c
      else
        (let query = trim (inputValue c);
             lang = currentLanguage (nlq c);
             s1 = clearResult (setProcessing True (setCurrentQuery query (nlq c)));
             s2 = addToHistory now stamp
                    (JObj [(''type'', JStr ''user''), (''query'', JStr query),
                           (''language'', JStr lang), (''timestamp'', JStr stamp')]) s1
         in c\<lparr>inputValue := [], nlq := s2,
               requests := requests c
                 @ [\<lparr>call_query = query, call_language = lang,
                      call_settings = settings (nlq c)\<rparr>]\<rparr>))"

text \<open>
  The rest of \<open>handleSubmit\<close>, when the call settles: with the response body, or with
  the exception the interceptor threw.
\<close>

definition fail_query :: "nat \<Rightarrow> string \<Rightarrow> string \<Rightarrow> string \<Rightarrow> js_exception \<Rightarrow> chat \<Rightarrow> chat" where
  "fail_query now stamp stamp' query err c =
     (let errorMessage = getErrorMessage err;
          s1 = setQueryError (JStr errorMessage) (nlq c);
          s2 = addToHistory now stamp
                 (JObj [(''type'', JStr ''error''), (''query'', JStr query),
                        (''error'', JStr errorMessage), (''timestamp'', JStr stamp')]) s1
      in c\<lparr>nlq := setProcessing False s2, toasts := toasts c @ [ToastError errorMessage]\<rparr>)"

definition handleSettled ::
    "nat \<Rightarrow> string \<Rightarrow> string \<Rightarrow> string \<Rightarrow> js_exception + jsval \<Rightarrow> chat \<Rightarrow> chat" where
  "handleSettled now stamp stamp' query outcome c =
     (case outcome of
        Inl err \<Rightarrow> fail_query now stamp stamp' query err c
      | Inr result \<Rightarrow>
          (case js_get result ''success'' of
             Inl err \<Rightarrow> fail_query now stamp stamp' query err c
           | Inr ok \<Rightarrow>
               if js_truthy ok then
                 (let s1 = setCurrentResult result (nlq c);
                      s2 = addToHistory now stamp
                             (JObj [(''type'', JStr ''bot''), (''query'', JStr query),
                                    (''result'', result), (''timestamp'', JStr stamp')]) s1
                  in c\<lparr>nlq := setProcessing False s2,
                        toasts := toasts c @ [ToastSuccess ''Query processed successfully'']\<rparr>)
               else
                 (let e = lookup_prop result ''error''
                  in fail_query now stamp stamp' query
                       (Error (if js_truthy e then js_toString e else ''Query processing failed''))
                       c)))"

definition initial_chat :: chat where
  "initial_chat = \<lparr>inputValue = [], nlq = initial_store, requests = [], toasts = []\<rparr>"

section \<open>Properties of the store\<close>

lemma take_100_Cons_take: "take 100 (x # take 100 xs) = take 100 (x # xs)"
  by (simp add: take_Cons')

lemma addToHistory_calls_snoc:
  "addToHistory_calls (calls @ [c]) st =
     (case c of (now, stamp, queryData) \<Rightarrow> addToHistory now stamp queryData (addToHistory_calls calls st))"
  by (simp add: addToHistory_calls_def)

lemma addToHistory_calls_history:
  "queryHistory (addToHistory_calls calls st) =
     (if calls = [] then queryHistory st
      else take 100 (rev (map entry_of calls) @ queryHistory st))"
proof (induction calls rule: rev_induct)
  case Nil
  show ?case by (simp add: addToHistory_calls_def)
next
  case (snoc c calls)
  obtain now stamp queryData where c: "c = (now, stamp, queryData)"
    by (cases c) auto
  show ?case
  proof (cases "calls = []")
    case True
    then show ?thesis
      by (simp add: addToHistory_calls_def addToHistory_def entry_of_def c)
  next
    case False
    with snoc show ?thesis
      by (simp add: addToHistory_calls_snoc addToHistory_def entry_of_def c take_100_Cons_take
               del: take_append)
  qed
qed

text \<open>
  Claim C1. After any non-empty sequence of \<open>addToHistory\<close> calls, from any starting
  history, the history has at most 100 entries; it is the first 100 elements of the new
  entries, newest first, followed by the starting history. So the entries dropped are
  those at the end of that list: the oldest.
\<close>

theorem addToHistory_calls_bounded:
  assumes "calls \<noteq> []"
  shows "length (queryHistory (addToHistory_calls calls st)) \<le> 100
       \<and> queryHistory (addToHistory_calls calls st)
           = take 100 (rev (map entry_of calls) @ queryHistory st)
       \<and> rev (map entry_of calls) @ queryHistory st
           = queryHistory (addToHistory_calls calls st)
             @ drop 100 (rev (map entry_of calls) @ queryHistory st)"
  using assms by (simp add: addToHistory_calls_history del: take_append drop_append)

theorem addToHistory_calls_bounded_witness:
  "length (queryHistory (addToHistory_calls
       [(1, ''t1'', JObj [(''type'', JStr ''user'')]), (2, ''t2'', JNull)]
       (initial_store\<lparr>queryHistory := replicate 150 JNull\<rparr>))) \<le> 100
   \<and> hd (queryHistory (addToHistory_calls
       [(1, ''t1'', JObj [(''type'', JStr ''user'')]), (2, ''t2'', JNull)]
       (initial_store\<lparr>queryHistory := replicate 150 JNull\<rparr>)))
     = JObj [(''id'', JNum 2), (''timestamp'', JStr ''t2'')]"
proof -
  have ne: "[(1::nat, ''t1'', JObj [(''type'', JStr ''user'')]), (2, ''t2'', JNull)] \<noteq> []"
    by simp
  from addToHistory_calls_bounded [OF ne, of "initial_store\<lparr>queryHistory := replicate 150 JNull\<rparr>"]
  show ?thesis
    by (simp add: entry_of_def newEntry_def spread_def)
qed

text \<open>
  Claim C2, as the code has it. After \<open>setCurrentResult(v)\<close> the result is \<open>v\<close> and the
  error is \<open>null\<close>; after \<open>setQueryError(v)\<close> the error is \<open>v\<close> and the result is
  \<open>null\<close>. So at most one of the two is non-null after either call, and exactly one is
  when, and only when, the argument itself is not \<open>null\<close>.
\<close>

theorem result_error_exclusive:
  "currentResult (setCurrentResult v st) = v \<and> queryError (setCurrentResult v st) = JNull
   \<and> queryError (setQueryError v st) = v \<and> currentResult (setQueryError v st) = JNull
   \<and> non_null_count (setCurrentResult v st) \<le> 1
   \<and> non_null_count (setQueryError v st) \<le> 1
   \<and> (non_null_count (setCurrentResult v st) = 1) = (v \<noteq> JNull)
   \<and> (non_null_count (setQueryError v st) = 1) = (v \<noteq> JNull)"
  by (simp add: setCurrentResult_def setQueryError_def non_null_count_def)

text \<open>
  Claim C2 as stated fails: "exactly one of the two is non-null after either call, for
  every argument" is false at the argument \<open>null\<close>, which leaves both \<open>null\<close>.
\<close>

theorem result_error_exactly_one_counterexample:
  "\<not> (\<forall>st v. non_null_count (setCurrentResult v st) = 1
              \<and> non_null_count (setQueryError v st) = 1)"
proof
  assume "\<forall>st v. non_null_count (setCurrentResult v st) = 1
              \<and> non_null_count (setQueryError v st) = 1"
  then have "non_null_count (setCurrentResult JNull initial_store) = 1"
    by blast
  then show False
    by (simp add: setCurrentResult_def non_null_count_def)
qed

lemma filter_by_id_filter:
  "list_all (\<lambda>e. \<not> nullish e) h \<Longrightarrow>
     filter_by_id ident h = Inr (filter (\<lambda>e. \<not> js_strict_eq (lookup_prop e ''id'') ident) h)"
  by (induction h) (simp_all add: js_get_def)

text \<open>
  Claim C10. On a history whose elements are entries (none is \<open>null\<close> or
  \<open>undefined\<close>), \<open>removeFromHistory(id)\<close> keeps exactly the entries whose \<open>id\<close> is not
  \<open>===\<close> the given one, in their order: every entry with that id is removed, also
  when several entries share it.
\<close>

theorem removeFromHistory_filter:
  assumes "list_all (\<lambda>e. \<not> nullish e) (queryHistory st)"
  shows "removeFromHistory ident st =
           Inr (st\<lparr>queryHistory :=
                  filter (\<lambda>e. \<not> js_strict_eq (lookup_prop e ''id'') ident) (queryHistory st)\<rparr>)"
  using assms by (simp add: removeFromHistory_def filter_by_id_filter)

theorem removeFromHistory_filter_witness:
  "removeFromHistory (JNum 5)
     (initial_store\<lparr>queryHistory :=
        [JObj [(''id'', JNum 7), (''type'', JStr ''error'')],
         JObj [(''id'', JNum 5), (''type'', JStr ''bot'')],
         JObj [(''id'', JNum 6), (''type'', JStr ''user'')],
         JObj [(''id'', JNum 5), (''type'', JStr ''user'')]]\<rparr>)
   = Inr (initial_store\<lparr>queryHistory :=
        [JObj [(''id'', JNum 7), (''type'', JStr ''error'')],
         JObj [(''id'', JNum 6), (''type'', JStr ''user'')]]\<rparr>)"
proof -
  let ?h = "[JObj [(''id'', JNum 7), (''type'', JStr ''error'')],
             JObj [(''id'', JNum 5), (''type'', JStr ''bot'')],
             JObj [(''id'', JNum 6), (''type'', JStr ''user'')],
             JObj [(''id'', JNum 5), (''type'', JStr ''user'')]]"
  have ok: "list_all (\<lambda>e. \<not> nullish e) (queryHistory (initial_store\<lparr>queryHistory := ?h\<rparr>))"
    by (simp add: nullish_def)
  from removeFromHistory_filter [OF ok, of "JNum 5"]
  show ?thesis
    by (simp add: js_strict_eq_def)
qed

section \<open>Properties of the result view\<close>

lemma js_typeof_number: "(js_typeof v = ''number'') = ((\<exists>q. v = JNum q) \<or> v = JNaN)"
  by (cases v) auto

lemma js_typeof_string: "(js_typeof v = ''string'') = (\<exists>s. v = JStr s)"
  by (cases v) auto

lemma js_strict_eq_JStr: "js_strict_eq v (JStr s) = (v = JStr s)"
  by (auto simp add: js_strict_eq_def)

text \<open>
  Claim C3, as the code has it. A column is listed as numeric exactly when its declared
  type is the string \<open>number\<close> or the first row's value under its name is a JavaScript
  number (\<open>typeof\<close> is \<open>number\<close>); it is listed as categorical exactly when its declared
  type is the string \<open>string\<close> or that value is a string. No value is coerced, and the
  two lists are two filters of the columns: in the payload \<open>two_class_payload\<close> the
  column \<open>rate\<close> is in both and the column \<open>active\<close> is in neither.
\<close>

theorem column_classes:
  "numericColumns r =
     filter (\<lambda>col. type col = JStr ''number''
                  \<or> (\<exists>q. first_value r col = JNum q) \<or> first_value r col = JNaN)
            (case columns r of None \<Rightarrow> [] | Some cols \<Rightarrow> cols)
   \<and> categoricalColumns r =
     filter (\<lambda>col. type col = JStr ''string'' \<or> (\<exists>s. first_value r col = JStr s))
            (case columns r of None \<Rightarrow> [] | Some cols \<Rightarrow> cols)
   \<and> numericColumns two_class_payload = [\<lparr>name = ''rate'', type = JStr ''number''\<rparr>]
   \<and> categoricalColumns two_class_payload = [\<lparr>name = ''rate'', type = JStr ''number''\<rparr>]
   \<and> columns two_class_payload
       = Some [\<lparr>name = ''rate'', type = JStr ''number''\<rparr>, \<lparr>name = ''active'', type = JUndefined\<rparr>]"
proof -
  have "numericColumns r =
     filter (\<lambda>col. type col = JStr ''number''
                  \<or> (\<exists>q. first_value r col = JNum q) \<or> first_value r col = JNaN)
            (case columns r of None \<Rightarrow> [] | Some cols \<Rightarrow> cols)"
    by (simp add: numericColumns_def js_strict_eq_JStr js_typeof_number split: option.split)
  moreover have "categoricalColumns r =
     filter (\<lambda>col. type col = JStr ''string'' \<or> (\<exists>s. first_value r col = JStr s))
            (case columns r of None \<Rightarrow> [] | Some cols \<Rightarrow> cols)"
    by (simp add: categoricalColumns_def js_strict_eq_JStr js_typeof_string split: option.split)
  moreover have "numericColumns two_class_payload = [\<lparr>name = ''rate'', type = JStr ''number''\<rparr>]"
    by code_simp
  moreover have "categoricalColumns two_class_payload = [\<lparr>name = ''rate'', type = JStr ''number''\<rparr>]"
    by code_simp
  moreover have "columns two_class_payload
       = Some [\<lparr>name = ''rate'', type = JStr ''number''\<rparr>, \<lparr>name = ''active'', type = JUndefined\<rparr>]"
    by (simp add: two_class_payload_def)
  ultimately show ?thesis
    by (intro conjI)
qed

text \<open>
  Claim C3 as stated fails. A column with no declared type whose first-row value is the
  string \<open>"12.345"\<close> coerces to a number, and is not numeric: it is categorical.
\<close>

theorem column_coercion_counterexample:
  "\<not> (\<forall>r col. col \<in> set (case columns r of None \<Rightarrow> [] | Some cols \<Rightarrow> cols) \<longrightarrow>
         ((col \<in> set (numericColumns r))
            = (type col = JStr ''number'' \<or> \<not> js_isNaN (first_value r col)))
         \<and> ((col \<in> set (categoricalColumns r)) = (col \<notin> set (numericColumns r))))"
proof
  let ?col = "\<lparr>name = ''rate'', type = JUndefined\<rparr>"
  let ?r = "\<lparr>success = JBool True, data = Some [[(''rate'', JStr ''12.345'')]],
             columns = Some [?col]\<rparr>"
  assume "\<forall>r col. col \<in> set (case columns r of None \<Rightarrow> [] | Some cols \<Rightarrow> cols) \<longrightarrow>
         ((col \<in> set (numericColumns r))
            = (type col = JStr ''number'' \<or> \<not> js_isNaN (first_value r col)))
         \<and> ((col \<in> set (categoricalColumns r)) = (col \<notin> set (numericColumns r)))"
  then have "(?col \<in> set (numericColumns ?r))
               = (type ?col = JStr ''number'' \<or> \<not> js_isNaN (first_value ?r ?col))"
    by simp
  moreover have "numericColumns ?r = []"
    by code_simp
  moreover have "\<not> js_isNaN (first_value ?r ?col)"
    by code_simp
  ultimately show False
    by simp
qed

















section \<open>Properties of export and import\<close>

subsection \<open>Strings are read back\<close>





subsection \<open>Numbers are read back\<close>

text \<open>
  The digits \<open>numToString\<close> writes for a number with at most 20 fractional digits are
  those of the number, and the number reader gives the number back.
\<close>

lemma digit_char_props: "d < 10 \<Longrightarrow> is_digit (digit_char d) \<and> digit_val (digit_char d) = d \<and> digit_char d \<noteq> CHR ''.'' \<and> (digit_char d = CHR ''0'') = (d = 0)"
proof -
  assume "d < 10"
  then have "d \<in> set [0..<10]"
    by simp
  moreover have "list_all (\<lambda>d. is_digit (digit_char d) \<and> digit_val (digit_char d) = d \<and> digit_char d \<noteq> CHR ''.'' \<and> (digit_char d = CHR ''0'') = (d = 0)) [0..<10]"
    by code_simp
  ultimately show ?thesis
    unfolding list_all_iff by blast
qed

lemma digit_char_mod: "digit_char (d mod 10) = digit_char d"
  by (simp add: digit_char_def)

lemma is_digit_digit_char [simp]: "is_digit (digit_char d)"
  using digit_char_props [of "d mod 10"] by (simp add: digit_char_mod)

lemma digit_val_digit_char [simp]: "digit_val (digit_char d) = d mod 10"
  using digit_char_props [of "d mod 10"] by (simp add: digit_char_mod)





















subsection \<open>Values are read back\<close>





























subsection \<open>The bound on nested calls\<close>

text \<open>
  The bound on nested calls is no restriction. Whatever a reader returns with some bound
  it returns with every bound that is at least the number of characters it has read, so
  \<open>JSON_parse\<close> accepts a text if and only if some bound reads it to its end.
\<close>

lemma skip_ws_length: "length (skip_ws s) \<le> length s"
  by (simp add: skip_ws_def length_dropWhile_le)

lemma parse_chars_length: "parse_chars cs = Some (str, r) \<Longrightarrow> length r < length cs"
proof (induction cs arbitrary: str r rule: parse_chars.induct)
  case 1
  then show ?case by simp
next
  case (2 c cs)
  then show ?case
    by (auto split: if_splits list.splits option.splits) fastforce+
qed

lemma dropWhile_shorter: "takeWhile P s \<noteq> [] \<Longrightarrow> length (dropWhile P s) < length s"
  by (cases s) (auto simp add: less_Suc_eq_le length_dropWhile_le split: if_splits)

lemma parse_frac_length: "parse_frac s = Some (fp, r) \<Longrightarrow> length r \<le> length s"
  by (auto simp add: parse_frac_def length_dropWhile_le le_SucI split: list.splits if_splits)

lemma parse_exp_length: "parse_exp s = Some (e, r) \<Longrightarrow> length r \<le> length s"
proof (cases s)
  case Nil
  assume "parse_exp s = Some (e, r)"
  with Nil show ?thesis by (simp add: parse_exp_def)
next
  case (Cons c t)
  assume p: "parse_exp s = Some (e, r)"
  show ?thesis
  proof (cases "is_exp_mark c")
    case False
    with p Cons show ?thesis by (simp add: parse_exp_def)
  next
    case True
    define ds where "ds = (if t \<noteq> [] \<and> (hd t = CHR ''+'' \<or> hd t = CHR ''-'') then tl t else t)"
    have "length ds \<le> length t"
      by (simp add: ds_def)
    moreover have "r = dropWhile is_digit ds"
      using p Cons True by (auto simp add: parse_exp_def Let_def ds_def split: if_splits)
    moreover have "length (dropWhile is_digit ds) \<le> length ds"
      by (rule length_dropWhile_le)
    ultimately show ?thesis
      using Cons by simp
  qed
qed

lemma parse_unsigned_length: "parse_unsigned s = Some (q, r) \<Longrightarrow> length r < length s"
proof -
  assume p: "parse_unsigned s = Some (q, r)"
  have ne: "takeWhile is_digit s \<noteq> []"
    using p by (auto simp add: parse_unsigned_def Let_def split: if_splits)
  obtain fp s3 where f: "parse_frac (dropWhile is_digit s) = Some (fp, s3)"
    using p by (auto simp add: parse_unsigned_def Let_def split: if_splits option.splits)
  obtain e where x: "parse_exp s3 = Some (e, r)"
    using p f by (auto simp add: parse_unsigned_def Let_def split: if_splits option.splits)
  from dropWhile_shorter [OF ne] parse_frac_length [OF f] parse_exp_length [OF x]
  show ?thesis by simp
qed

lemma parse_number_length: "parse_number s = Some (q, r) \<Longrightarrow> length r < length s"
proof (cases s)
  case Nil
  assume "parse_number s = Some (q, r)"
  with Nil show ?thesis by (simp add: parse_number_def)
next
  case (Cons c t)
  assume p: "parse_number s = Some (q, r)"
  show ?thesis
  proof (cases "c = CHR ''-''")
    case True
    then obtain q' where "parse_unsigned t = Some (q', r)"
      using p Cons by (auto simp add: parse_number_def)
    from parse_unsigned_length [OF this] Cons show ?thesis by simp
  next
    case False
    then have "parse_unsigned s = Some (q, r)"
      using p Cons by (simp add: parse_number_def)
    from parse_unsigned_length [OF this] show ?thesis .
  qed
qed

lemma parse_value_fuel_step:
  assumes E: "\<And>s vs r. parse_elements n s = Some (vs, r) \<Longrightarrow>
                length r < length s \<and> (\<forall>m. length s - length r \<le> m \<longrightarrow> parse_elements m s = Some (vs, r))"
    and M: "\<And>s ms r. parse_members n s = Some (ms, r) \<Longrightarrow>
                length r < length s \<and> (\<forall>m. length s - length r \<le> m \<longrightarrow> parse_members m s = Some (ms, r))"
    and P: "parse_value (Suc n) s = Some (v, r)"
  shows "length r < length s \<and> (\<forall>m. length s - length r \<le> m \<longrightarrow> parse_value m s = Some (v, r))"
proof -
  obtain c cs where sk: "skip_ws s = c # cs"
    using P by (cases "skip_ws s") simp_all
  have len: "length cs < length s"
    using skip_ws_length [of s] by (simp add: sk)
  have fuel: "\<exists>k. m = Suc k \<and> length s - length r - 1 \<le> k" if "length r < length s" "length s - length r \<le> m" for m
    using that by (cases m) auto
  consider (str) "c = CHR 0x22"
    | (arr) "c \<noteq> CHR 0x22" "c = CHR ''[''"
    | (obj) "c \<noteq> CHR 0x22" "c \<noteq> CHR ''[''" "c = CHR ''{''"
    | (scalar) "c \<noteq> CHR 0x22" "c \<noteq> CHR ''[''" "c \<noteq> CHR ''{''"
    by blast
  then show ?thesis
  proof cases
    case str
    obtain str' where pc: "parse_chars cs = Some (str', r)" and v: "v = JStr str'"
      using P by (auto simp add: sk str)
    have lr: "length r < length s"
      using parse_chars_length [OF pc] len by simp
    have "parse_value m s = Some (v, r)" if le: "length s - length r \<le> m" for m
    proof -
      obtain k where "m = Suc k"
        using fuel [OF lr le] by blast
      then show ?thesis
        by (simp add: sk str pc v)
    qed
    with lr show ?thesis by blast
  next
    case arr
    obtain d ds where sk2: "skip_ws cs = d # ds"
      using P by (cases "skip_ws cs") (simp_all add: sk arr)
    show ?thesis
    proof (cases "d = CHR '']''")
      case True
      have v: "v = JArr []" and r: "r = ds"
        using P by (simp_all add: sk arr sk2 True)
      have lr: "length r < length s"
        using skip_ws_length [of cs] len by (simp add: sk2 r)
      have "parse_value m s = Some (v, r)" if le: "length s - length r \<le> m" for m
      proof -
        obtain k where "m = Suc k"
          using fuel [OF lr le] by blast
        then show ?thesis
          by (simp add: sk arr sk2 True v r)
      qed
      with lr show ?thesis by blast
    next
      case False
      obtain vs where pe: "parse_elements n cs = Some (vs, r)" and v: "v = JArr vs"
        using P by (auto simp add: sk arr sk2 False)
      from E [OF pe] have lc: "length r < length cs"
        and all: "\<And>m. length cs - length r \<le> m \<Longrightarrow> parse_elements m cs = Some (vs, r)"
        by blast+
      have lr: "length r < length s"
        using lc len by simp
      have "parse_value m s = Some (v, r)" if le: "length s - length r \<le> m" for m
      proof -
        obtain k where k: "m = Suc k" "length s - length r - 1 \<le> k"
          using fuel [OF lr le] by blast
        have "length cs - length r \<le> k"
          using k len by simp
        from all [OF this] show ?thesis
          by (simp add: k sk arr sk2 False v)
      qed
      with lr show ?thesis by blast
    qed
  next
    case obj
    obtain d ds where sk2: "skip_ws cs = d # ds"
      using P by (cases "skip_ws cs") (simp_all add: sk obj)
    show ?thesis
    proof (cases "d = CHR ''}''")
      case True
      have v: "v = JObj []" and r: "r = ds"
        using P by (simp_all add: sk obj sk2 True)
      have lr: "length r < length s"
        using skip_ws_length [of cs] len by (simp add: sk2 r)
      have "parse_value m s = Some (v, r)" if le: "length s - length r \<le> m" for m
      proof -
        obtain k where "m = Suc k"
          using fuel [OF lr le] by blast
        then show ?thesis
          by (simp add: sk obj sk2 True v r)
      qed
      with lr show ?thesis by blast
    next
      case False
      obtain ms where pm: "parse_members n cs = Some (ms, r)" and v: "v = JObj (from_members ms)"
        using P by (auto simp add: sk obj sk2 False)
      from M [OF pm] have lc: "length r < length cs"
        and all: "\<And>m. length cs - length r \<le> m \<Longrightarrow> parse_members m cs = Some (ms, r)"
        by blast+
      have lr: "length r < length s"
        using lc len by simp
      have "parse_value m s = Some (v, r)" if le: "length s - length r \<le> m" for m
      proof -
        obtain k where k: "m = Suc k" "length s - length r - 1 \<le> k"
          using fuel [OF lr le] by blast
        have "length cs - length r \<le> k"
          using k len by simp
        from all [OF this] show ?thesis
          by (simp add: k sk obj sk2 False v)
      qed
      with lr show ?thesis by blast
    qed
  next
    case scalar
    have same: "parse_value (Suc k) s = parse_value (Suc n) s" for k
      by (simp add: sk scalar)
    have "length r < length (c # cs)"
      using P parse_number_length [of "c # cs" _ r]
      by (auto simp add: sk scalar split: if_splits)
    then have lr: "length r < length s"
      using len by simp
    have "parse_value m s = Some (v, r)" if le: "length s - length r \<le> m" for m
    proof -
      obtain k where "m = Suc k"
        using fuel [OF lr le] by blast
      then show ?thesis
        using same [of k] P by simp
    qed
    with lr show ?thesis by blast
  qed
qed

lemma parse_elements_fuel_step:
  assumes V: "\<And>s v r. parse_value n s = Some (v, r) \<Longrightarrow>
                length r < length s \<and> (\<forall>m. length s - length r \<le> m \<longrightarrow> parse_value m s = Some (v, r))"
    and E: "\<And>s vs r. parse_elements n s = Some (vs, r) \<Longrightarrow>
                length r < length s \<and> (\<forall>m. length s - length r \<le> m \<longrightarrow> parse_elements m s = Some (vs, r))"
    and P: "parse_elements (Suc n) s = Some (vs, r)"
  shows "length r < length s \<and> (\<forall>m. length s - length r \<le> m \<longrightarrow> parse_elements m s = Some (vs, r))"
proof -
  obtain v r1 where pv: "parse_value n s = Some (v, r1)"
    using P by (cases "parse_value n s") auto
  obtain c cs where sk: "skip_ws r1 = c # cs"
    using P by (cases "skip_ws r1") (simp_all add: pv)
  from V [OF pv] have l1: "length r1 < length s"
    and all1: "\<And>m. length s - length r1 \<le> m \<Longrightarrow> parse_value m s = Some (v, r1)"
    by blast+
  have lcs: "length cs < length r1"
    using skip_ws_length [of r1] by (simp add: sk)
  show ?thesis
  proof (cases "c = CHR '',''")
    case True
    obtain vs' where pe: "parse_elements n cs = Some (vs', r)" and vs: "vs = v # vs'"
      using P by (auto simp add: pv sk True)
    from E [OF pe] have l2: "length r < length cs"
      and all2: "\<And>m. length cs - length r \<le> m \<Longrightarrow> parse_elements m cs = Some (vs', r)"
      by blast+
    have lr: "length r < length s"
      using l1 lcs l2 by simp
    have "parse_elements m s = Some (vs, r)" if le: "length s - length r \<le> m" for m
    proof -
      obtain k where k: "m = Suc k" "length s - length r - 1 \<le> k"
        using lr le by (cases m) auto
      have "length s - length r1 \<le> k" "length cs - length r \<le> k"
        using k l1 lcs l2 by simp_all
      then have "parse_value k s = Some (v, r1)" "parse_elements k cs = Some (vs', r)"
        by (simp_all add: all1 all2)
      then show ?thesis
        by (simp add: k sk True vs)
    qed
    with lr show ?thesis by blast
  next
    case False
    have c: "c = CHR '']''" and vs: "vs = [v]" and r: "r = cs"
      using P False by (simp_all add: pv sk split: if_splits)
    have lr: "length r < length s"
      using l1 lcs r by simp
    have "parse_elements m s = Some (vs, r)" if le: "length s - length r \<le> m" for m
    proof -
      obtain k where k: "m = Suc k" "length s - length r - 1 \<le> k"
        using lr le by (cases m) auto
      have "length s - length r1 \<le> k"
        using k l1 lcs r by simp
      then have "parse_value k s = Some (v, r1)"
        by (simp add: all1)
      then show ?thesis
        by (simp add: k sk c vs r)
    qed
    with lr show ?thesis by blast
  qed
qed

lemma parse_members_fuel_step:
  assumes V: "\<And>s v r. parse_value n s = Some (v, r) \<Longrightarrow>
                length r < length s \<and> (\<forall>m. length s - length r \<le> m \<longrightarrow> parse_value m s = Some (v, r))"
    and M: "\<And>s ms r. parse_members n s = Some (ms, r) \<Longrightarrow>
                length r < length s \<and> (\<forall>m. length s - length r \<le> m \<longrightarrow> parse_members m s = Some (ms, r))"
    and P: "parse_members (Suc n) s = Some (ms, r)"
  shows "length r < length s \<and> (\<forall>m. length s - length r \<le> m \<longrightarrow> parse_members m s = Some (ms, r))"
proof -
  obtain q cs where sk: "skip_ws s = q # cs"
    using P by (cases "skip_ws s") simp_all
  have q: "q = CHR 0x22"
    using P by (simp add: sk split: if_splits)
  obtain k0 r0 where pc: "parse_chars cs = Some (k0, r0)"
    using P by (cases "parse_chars cs") (auto simp add: sk q)
  obtain c r1 where sk1: "skip_ws r0 = c # r1"
    using P by (cases "skip_ws r0") (simp_all add: sk q pc)
  have c: "c = CHR '':''"
    using P by (simp add: sk q pc sk1 split: if_splits)
  obtain v r2 where pv: "parse_value n r1 = Some (v, r2)"
    using P by (cases "parse_value n r1") (auto simp add: sk q pc sk1 c)
  obtain d r3 where sk2: "skip_ws r2 = d # r3"
    using P by (cases "skip_ws r2") (simp_all add: sk q pc sk1 c pv)
  have unfold: "parse_members (Suc k) s =
                  (case parse_value k r1 of
                     None \<Rightarrow> None
                   | Some (v, r2) \<Rightarrow>
                       (case skip_ws r2 of
                          [] \<Rightarrow> None
                        | d # r3 \<Rightarrow>
                            if d = CHR '','' then
                              map_option (\<lambda>(ms, r'). ((k0, v) # ms, r')) (parse_members k r3)
                            else if d = CHR ''}'' then Some ([(k0, v)], r3)
                            else None))" for k
    by (simp add: sk q pc sk1 c)
  have lcs: "length cs < length s"
    using skip_ws_length [of s] by (simp add: sk)
  have l0: "length r0 < length cs"
    by (rule parse_chars_length [OF pc])
  have l1: "length r1 < length r0"
    using skip_ws_length [of r0] by (simp add: sk1)
  from V [OF pv] have l2: "length r2 < length r1"
    and all1: "\<And>m. length r1 - length r2 \<le> m \<Longrightarrow> parse_value m r1 = Some (v, r2)"
    by blast+
  have l3: "length r3 < length r2"
    using skip_ws_length [of r2] by (simp add: sk2)
  show ?thesis
  proof (cases "d = CHR '',''")
    case True
    obtain ms' where pm: "parse_members n r3 = Some (ms', r)" and ms: "ms = (k0, v) # ms'"
      using P unfolding unfold by (auto simp add: pv sk2 True)
    from M [OF pm] have l4: "length r < length r3"
      and all2: "\<And>m. length r3 - length r \<le> m \<Longrightarrow> parse_members m r3 = Some (ms', r)"
      by blast+
    have lr: "length r < length s"
      using lcs l0 l1 l2 l3 l4 by simp
    have "parse_members m s = Some (ms, r)" if le: "length s - length r \<le> m" for m
    proof -
      obtain k where k: "m = Suc k" "length s - length r - 1 \<le> k"
        using lr le by (cases m) auto
      have "length r1 - length r2 \<le> k" "length r3 - length r \<le> k"
        using k lcs l0 l1 l2 l3 l4 by simp_all
      then have "parse_value k r1 = Some (v, r2)" "parse_members k r3 = Some (ms', r)"
        by (simp_all add: all1 all2)
      then show ?thesis
        unfolding k unfold by (simp add: sk2 True ms)
    qed
    with lr show ?thesis by blast
  next
    case False
    have d: "d = CHR ''}''" and ms: "ms = [(k0, v)]" and r: "r = r3"
      using P False unfolding unfold by (simp_all add: pv sk2 split: if_splits)
    have lr: "length r < length s"
      using lcs l0 l1 l2 l3 r by simp
    have "parse_members m s = Some (ms, r)" if le: "length s - length r \<le> m" for m
    proof -
      obtain k where k: "m = Suc k" "length s - length r - 1 \<le> k"
        using lr le by (cases m) auto
      have "length r1 - length r2 \<le> k"
        using k lcs l0 l1 l2 l3 r by simp
      then have "parse_value k r1 = Some (v, r2)"
        by (simp add: all1)
      then show ?thesis
        unfolding k unfold by (simp add: sk2 d ms r)
    qed
    with lr show ?thesis by blast
  qed
qed

lemma parse_fuel:
  "(\<forall>s v r. parse_value n s = Some (v, r) \<longrightarrow>
      length r < length s \<and> (\<forall>m. length s - length r \<le> m \<longrightarrow> parse_value m s = Some (v, r)))
   \<and> (\<forall>s vs r. parse_elements n s = Some (vs, r) \<longrightarrow>
      length r < length s \<and> (\<forall>m. length s - length r \<le> m \<longrightarrow> parse_elements m s = Some (vs, r)))
   \<and> (\<forall>s ms r. parse_members n s = Some (ms, r) \<longrightarrow>
      length r < length s \<and> (\<forall>m. length s - length r \<le> m \<longrightarrow> parse_members m s = Some (ms, r)))"
proof (induction n)
  case 0
  show ?case by simp
next
  case (Suc n)
  have V: "\<And>s v r. parse_value n s = Some (v, r) \<Longrightarrow>
                length r < length s \<and> (\<forall>m. length s - length r \<le> m \<longrightarrow> parse_value m s = Some (v, r))"
    using Suc by blast
  have E: "\<And>s vs r. parse_elements n s = Some (vs, r) \<Longrightarrow>
                length r < length s \<and> (\<forall>m. length s - length r \<le> m \<longrightarrow> parse_elements m s = Some (vs, r))"
    using Suc by blast
  have M: "\<And>s ms r. parse_members n s = Some (ms, r) \<Longrightarrow>
                length r < length s \<and> (\<forall>m. length s - length r \<le> m \<longrightarrow> parse_members m s = Some (ms, r))"
    using Suc by blast
  show ?case
  proof (intro conjI allI impI)
    fix s v r assume "parse_value (Suc n) s = Some (v, r)"
    from parse_value_fuel_step [OF E M this]
    show "length r < length s" "\<And>m. length s - length r \<le> m \<Longrightarrow> parse_value m s = Some (v, r)"
      by blast+
  next
    fix s vs r assume "parse_elements (Suc n) s = Some (vs, r)"
    from parse_elements_fuel_step [OF V E this]
    show "length r < length s" "\<And>m. length s - length r \<le> m \<Longrightarrow> parse_elements m s = Some (vs, r)"
      by blast+
  next
    fix s ms r assume "parse_members (Suc n) s = Some (ms, r)"
    from parse_members_fuel_step [OF V M this]
    show "length r < length s" "\<And>m. length s - length r \<le> m \<Longrightarrow> parse_members m s = Some (ms, r)"
      by blast+
  qed
qed

lemma parse_value_fuel:
  assumes "parse_value n s = Some (v, r)"
  shows "parse_value (2 * length s + 2) s = Some (v, r)"
proof -
  from parse_fuel [of n] assms
  have "\<forall>m. length s - length r \<le> m \<longrightarrow> parse_value m s = Some (v, r)"
    by blast
  moreover have "length s - length r \<le> 2 * length s + 2"
    by simp
  ultimately show ?thesis
    by blast
qed

lemma JSON_parse_fuel:
  "(JSON_parse s = Inr v) = (\<exists>n r. parse_value n s = Some (v, r) \<and> skip_ws r = [])"
proof
  assume p: "JSON_parse s = Inr v"
  show "\<exists>n r. parse_value n s = Some (v, r) \<and> skip_ws r = []"
  proof (cases "parse_value (2 * length s + 2) s")
    case None
    with p show ?thesis
      unfolding JSON_parse_def by simp
  next
    case (Some x)
    obtain v' r where x: "x = (v', r)"
      by (cases x)
    from p have "v' = v \<and> skip_ws r = []"
      unfolding JSON_parse_def Some x by (simp split: if_splits)
    with Some x show ?thesis
      by blast
  qed
next
  assume "\<exists>n r. parse_value n s = Some (v, r) \<and> skip_ws r = []"
  then obtain n r where "parse_value n s = Some (v, r)" and r: "skip_ws r = []"
    by blast
  from parse_value_fuel [OF this(1)] r show "JSON_parse s = Inr v"
    unfolding JSON_parse_def by simp
qed

subsection \<open>Import and export\<close>

text \<open>
  Claim C6. \<open>importHistory\<close> is rejected with "Invalid file format" exactly when the
  text parses to a value that is not an array, and with "Failed to parse file" exactly
  when \<open>JSON.parse\<close> throws; the only other rejection is a failed read. Whenever it is
  rejected the store is as before. When the text parses to an array, the history becomes
  that array, whatever it was before, and the promise resolves with it.
\<close>

theorem importHistory_outcomes:
  "(fst (importHistory upload st) = Inl (Error ''Invalid file format''))
      = (\<exists>txt parsed. upload = Loaded txt \<and> JSON_parse txt = Inr parsed \<and> \<not> isArray parsed)
   \<and> (fst (importHistory upload st) = Inl (Error ''Failed to parse file''))
      = (\<exists>txt err. upload = Loaded txt \<and> JSON_parse txt = Inl err)
   \<and> (fst (importHistory upload st) = Inl (Error ''Failed to read file'')) = (upload = ReadFailed)
   \<and> ((\<exists>err. fst (importHistory upload st) = Inl err) \<longrightarrow> snd (importHistory upload st) = st)
   \<and> (\<forall>txt entries. upload = Loaded txt \<longrightarrow> JSON_parse txt = Inr (JArr entries) \<longrightarrow>
          importHistory upload st = (Inr entries, st\<lparr>queryHistory := entries\<rparr>))"
proof (cases upload)
  case ReadFailed
  then show ?thesis
    by (simp add: importHistory_def)
next
  case (Loaded t)
  show ?thesis
  proof (cases "JSON_parse t")
    case (Inl err)
    with Loaded show ?thesis
      by (simp add: importHistory_def)
  next
    case (Inr parsed)
    with Loaded show ?thesis
      by (cases parsed) (simp_all add: importHistory_def)
  qed
qed

theorem importHistory_outcomes_witness:
  "importHistory (Loaded ''{}'') (initial_store\<lparr>queryHistory := [JObj [(''id'', JNum 7)]]\<rparr>)
     = (Inl (Error ''Invalid file format''), initial_store\<lparr>queryHistory := [JObj [(''id'', JNum 7)]]\<rparr>)
   \<and> importHistory (Loaded ''[1, 2'') (initial_store\<lparr>queryHistory := [JObj [(''id'', JNum 7)]]\<rparr>)
     = (Inl (Error ''Failed to parse file''), initial_store\<lparr>queryHistory := [JObj [(''id'', JNum 7)]]\<rparr>)
   \<and> importHistory (Loaded ''[ {}, 2.5 ]'') (initial_store\<lparr>queryHistory := [JObj [(''id'', JNum 7)]]\<rparr>)
     = (Inr [JObj [], JNum (5 / 2)], initial_store\<lparr>queryHistory := [JObj [], JNum (5 / 2)]\<rparr>)"
proof -
  let ?st = "initial_store\<lparr>queryHistory := [JObj [(''id'', JNum 7)]]\<rparr>"
  have p1: "JSON_parse ''{}'' = Inr (JObj [])"
    by code_simp
  have p2: "JSON_parse ''[1, 2'' = Inl SyntaxError"
    by code_simp
  have p3: "JSON_parse ''[ {}, 2.5 ]'' = Inr (JArr [JObj [], JNum (5 / 2)])"
    by code_simp
  from importHistory_outcomes [of "Loaded ''{}''" ?st] p1
  have "fst (importHistory (Loaded ''{}'') ?st) = Inl (Error ''Invalid file format'')
        \<and> snd (importHistory (Loaded ''{}'') ?st) = ?st"
    by simp
  moreover from importHistory_outcomes [of "Loaded ''[1, 2''" ?st] p2
  have "fst (importHistory (Loaded ''[1, 2'') ?st) = Inl (Error ''Failed to parse file'')
        \<and> snd (importHistory (Loaded ''[1, 2'') ?st) = ?st"
    by simp
  moreover from importHistory_outcomes [of "Loaded ''[ {}, 2.5 ]''" ?st] p3
  have "importHistory (Loaded ''[ {}, 2.5 ]'') ?st
          = (Inr [JObj [], JNum (5 / 2)], ?st\<lparr>queryHistory := [JObj [], JNum (5 / 2)]\<rparr>)"
    by simp
  ultimately show ?thesis
    by (simp add: prod_eq_iff)
qed




section \<open>Properties of the HTTP client and the chat\<close>

lemma frac_digits_zero: "frac_digits k 0 = []"
  by (cases k) simp_all

lemma numToString_of_nat: "numToString (of_nat n) = show_nat n"
  by (simp add: numToString_def frac_digits_zero)

lemma strict_eq_status: "js_strict_eq (JNum (of_nat status)) (JNum (numeral k)) = (status = numeral k)"
proof -
  have "(rat_of_nat status = numeral k) = (status = numeral k)"
    by (metis of_nat_eq_iff of_nat_numeral)
  then show ?thesis
    by (simp add: js_strict_eq_def)
qed

lemma server_message_present:
  "\<not> nullish d \<Longrightarrow>
     server_message d fallback =
       Error (if js_truthy (lookup_prop d ''message'')
              then js_toString (lookup_prop d ''message'') else fallback)"
  by (simp add: server_message_def js_get_def)

lemma responseError_chain:
  assumes "\<not> nullish error" and "js_truthy (lookup_prop error ''response'')"
    and "lookup_prop (lookup_prop error ''response'') ''status'' = JNum (of_nat status)"
  shows "responseError error =
          (if status = 400
             then server_message (lookup_prop (lookup_prop error ''response'') ''data'') ''Bad Request''
           else if status = 401 then Error ''Unauthorized access''
           else if status = 403 then Error ''Forbidden access''
           else if status = 404 then Error ''Resource not found''
           else if status = 429 then Error ''Rate limit exceeded. Please try again later.''
           else if status = 500 then Error ''Internal server error''
           else server_message (lookup_prop (lookup_prop error ''response'') ''data'')
                  (''Request failed with status '' @ show_nat status))"
  using assms
  by (simp add: responseError_def js_get_def Let_def strict_eq_status numToString_of_nat
        split del: if_split cong: if_cong)

lemma responseError_listed:
  assumes "\<not> nullish error" and "js_truthy (lookup_prop error ''response'')"
    and "lookup_prop (lookup_prop error ''response'') ''status'' = JNum (of_nat status)"
    and "status \<in> {401, 403, 404, 429, 500}"
  shows "responseError error = Error (fixed_message status)"
proof -
  from assms(4) consider "status = 401" | "status = 403" | "status = 404" | "status = 429"
    | "status = 500"
    by auto
  then show ?thesis
    by cases (simp_all add: responseError_chain [OF assms(1-3)] fixed_message_def)
qed

lemma responseError_other:
  assumes "\<not> nullish error" and "js_truthy (lookup_prop error ''response'')"
    and "lookup_prop (lookup_prop error ''response'') ''status'' = JNum (of_nat status)"
    and "status \<notin> {401, 403, 404, 429, 500}"
    and "\<not> nullish (lookup_prop (lookup_prop error ''response'') ''data'')"
  shows "responseError error =
           Error (if js_truthy (lookup_prop (lookup_prop (lookup_prop error ''response'') ''data'') ''message'')
                  then js_toString (lookup_prop (lookup_prop (lookup_prop error ''response'') ''data'') ''message'')
                  else fixed_message status)"
proof (cases "status = 400")
  case True
  then show ?thesis
    by (simp add: responseError_chain [OF assms(1-3)] server_message_present [OF assms(5)]
          fixed_message_def)
next
  case False
  with assms(4) have "fixed_message status = ''Request failed with status '' @ show_nat status"
    by (simp add: fixed_message_def)
  with False assms(4) show ?thesis
    by (simp add: responseError_chain [OF assms(1-3)] server_message_present [OF assms(5)])
qed

lemma responseError_no_response:
  assumes "\<not> nullish error" and "\<not> js_truthy (lookup_prop error ''response'')"
  shows "responseError error =
           (if js_truthy (lookup_prop error ''request'')
            then Error ''Network error. Please check your connection.''
            else Error (if js_truthy (lookup_prop error ''message'')
                        then js_toString (lookup_prop error ''message'')
                        else ''An unexpected error occurred''))"
  using assms by (simp add: responseError_def js_get_def Let_def)

text \<open>
  Claim C8, as the code has it. When the server answered with status 401, 403, 404, 429
  or 500 the error thrown carries the fixed message of that status, whatever the body
  says. With status 400 or any status not listed, and a body that is not \<open>null\<close>, it
  carries the body's \<open>message\<close> when that is truthy and the fixed message (\<open>Bad Request\<close>,
  \<open>Request failed with status N\<close>) otherwise. With no response but a request it carries
  the network message, and with neither the error's own message, or \<open>An unexpected error
  occurred\<close> when that is empty. Every error is a plain \<open>Error\<close>: the three kinds differ
  by their message only.
\<close>

theorem responseError_messages:
  assumes "\<not> nullish error"
  shows "(js_truthy (lookup_prop error ''response'') \<longrightarrow>
            (\<forall>status. lookup_prop (lookup_prop error ''response'') ''status'' = JNum (of_nat status) \<longrightarrow>
               (status \<in> {401, 403, 404, 429, 500} \<longrightarrow>
                  responseError error = Error (fixed_message status))
               \<and> (status \<notin> {401, 403, 404, 429, 500} \<longrightarrow>
                  \<not> nullish (lookup_prop (lookup_prop error ''response'') ''data'') \<longrightarrow>
                  responseError error =
                    Error (if js_truthy (lookup_prop (lookup_prop (lookup_prop error ''response'') ''data'') ''message'')
                           then js_toString (lookup_prop (lookup_prop (lookup_prop error ''response'') ''data'') ''message'')
                           else fixed_message status))))
       \<and> (\<not> js_truthy (lookup_prop error ''response'') \<longrightarrow>
            js_truthy (lookup_prop error ''request'') \<longrightarrow>
            responseError error = Error ''Network error. Please check your connection.'')
       \<and> (\<not> js_truthy (lookup_prop error ''response'') \<longrightarrow>
            \<not> js_truthy (lookup_prop error ''request'') \<longrightarrow>
            responseError error =
              Error (if js_truthy (lookup_prop error ''message'')
                     then js_toString (lookup_prop error ''message'')
                     else ''An unexpected error occurred''))"
proof (intro conjI impI allI)
  fix status
  assume r: "js_truthy (lookup_prop error ''response'')"
    and s: "lookup_prop (lookup_prop error ''response'') ''status'' = JNum (of_nat status)"
  {
    assume "status \<in> {401, 403, 404, 429, 500}"
    with assms r s show "responseError error = Error (fixed_message status)"
      by (rule responseError_listed)
  }
  {
    assume "status \<notin> {401, 403, 404, 429, 500}"
      and "\<not> nullish (lookup_prop (lookup_prop error ''response'') ''data'')"
    with assms r s show "responseError error =
        Error (if js_truthy (lookup_prop (lookup_prop (lookup_prop error ''response'') ''data'') ''message'')
               then js_toString (lookup_prop (lookup_prop (lookup_prop error ''response'') ''data'') ''message'')
               else fixed_message status)"
      by (rule responseError_other)
  }
next
  assume "\<not> js_truthy (lookup_prop error ''response'')"
    and "js_truthy (lookup_prop error ''request'')"
  with assms show "responseError error = Error ''Network error. Please check your connection.''"
    by (simp add: responseError_no_response)
next
  assume "\<not> js_truthy (lookup_prop error ''response'')"
    and "\<not> js_truthy (lookup_prop error ''request'')"
  with assms show "responseError error =
      Error (if js_truthy (lookup_prop error ''message'')
             then js_toString (lookup_prop error ''message'')
             else ''An unexpected error occurred'')"
    by (simp add: responseError_no_response)
qed

theorem responseError_messages_witness:
  "responseError (http_error 404 (JObj [(''message'', JStr ''no such table'')]))
     = Error ''Resource not found''
   \<and> responseError (http_error 422 (JObj [(''message'', JStr ''query is empty'')]))
     = Error ''query is empty''
   \<and> responseError (http_error 503 (JObj []))
     = Error ''Request failed with status 503''
   \<and> responseError (JObj [(''message'', JStr ''timeout of 30000ms exceeded''), (''request'', JObj [])])
     = Error ''Network error. Please check your connection.''"
proof -
  let ?e1 = "http_error 404 (JObj [(''message'', JStr ''no such table'')])"
  let ?e2 = "http_error 422 (JObj [(''message'', JStr ''query is empty'')])"
  let ?e3 = "http_error 503 (JObj [])"
  let ?e4 = "JObj [(''message'', JStr ''timeout of 30000ms exceeded''), (''request'', JObj [])]"
  have n1: "\<not> nullish ?e1" and n2: "\<not> nullish ?e2" and n3: "\<not> nullish ?e3"
    and n4: "\<not> nullish ?e4"
    by (simp_all add: nullish_def http_error_def)
  have r1: "js_truthy (lookup_prop ?e1 ''response'')"
    and r2: "js_truthy (lookup_prop ?e2 ''response'')"
    and r3: "js_truthy (lookup_prop ?e3 ''response'')"
    by (simp_all add: http_error_def)
  have s1: "lookup_prop (lookup_prop ?e1 ''response'') ''status'' = JNum (of_nat 404)"
    and s2: "lookup_prop (lookup_prop ?e2 ''response'') ''status'' = JNum (of_nat 422)"
    and s3: "lookup_prop (lookup_prop ?e3 ''response'') ''status'' = JNum (of_nat 503)"
    by (simp_all add: http_error_def)
  have d2: "\<not> nullish (lookup_prop (lookup_prop ?e2 ''response'') ''data'')"
    and d3: "\<not> nullish (lookup_prop (lookup_prop ?e3 ''response'') ''data'')"
    by (simp_all add: http_error_def nullish_def)
  have m1: "(404::nat) \<in> {401, 403, 404, 429, 500}"
    and m2: "(422::nat) \<notin> {401, 403, 404, 429, 500}"
    and m3: "(503::nat) \<notin> {401, 403, 404, 429, 500}"
    by simp_all
  have f1: "fixed_message 404 = ''Resource not found''"
    and f3: "fixed_message 503 = ''Request failed with status 503''"
    by code_simp+
  have "responseError ?e1 = Error (fixed_message 404)"
    using responseError_messages [OF n1] r1 s1 m1 by blast
  then have a: "responseError ?e1 = Error ''Resource not found''"
    by (simp only: f1)
  have "responseError ?e2 =
          Error (if js_truthy (lookup_prop (lookup_prop (lookup_prop ?e2 ''response'') ''data'') ''message'')
                 then js_toString (lookup_prop (lookup_prop (lookup_prop ?e2 ''response'') ''data'') ''message'')
                 else fixed_message 422)"
    using responseError_messages [OF n2] r2 s2 m2 d2 by blast
  then have b: "responseError ?e2 = Error ''query is empty''"
    by (simp add: http_error_def)
  have "responseError ?e3 =
          Error (if js_truthy (lookup_prop (lookup_prop (lookup_prop ?e3 ''response'') ''data'') ''message'')
                 then js_toString (lookup_prop (lookup_prop (lookup_prop ?e3 ''response'') ''data'') ''message'')
                 else fixed_message 503)"
    using responseError_messages [OF n3] r3 s3 m3 d3 by blast
  then have c: "responseError ?e3 = Error ''Request failed with status 503''"
    by (simp add: http_error_def f3)
  have d: "responseError ?e4 = Error ''Network error. Please check your connection.''"
    using responseError_messages [OF n4] by simp
  from a b c d show ?thesis
    by (intro conjI)
qed

text \<open>
  Claim C8 as stated fails under either reading of "a fixed message per status, falling
  back to the server-supplied message when one is present". The server's message is not
  carried for every status (status 401 ignores it), and the fixed message is not carried
  for every status either (status 400 gives way to the server's message).
\<close>

theorem responseError_uniform_counterexample:
  "\<not> (\<forall>status m. js_truthy m \<longrightarrow>
          responseError (http_error status (JObj [(''message'', m)])) = Error (js_toString m))
   \<and> \<not> (\<forall>status m.
          responseError (http_error status (JObj [(''message'', m)])) = Error (fixed_message status))"
proof
  have a: "responseError (http_error 401 (JObj [(''message'', JStr ''Token expired'')]))
             = Error ''Unauthorized access''"
    by code_simp
  show "\<not> (\<forall>status m. js_truthy m \<longrightarrow>
          responseError (http_error status (JObj [(''message'', m)])) = Error (js_toString m))"
  proof
    assume "\<forall>status m. js_truthy m \<longrightarrow>
          responseError (http_error status (JObj [(''message'', m)])) = Error (js_toString m)"
    then have "responseError (http_error 401 (JObj [(''message'', JStr ''Token expired'')]))
                 = Error (js_toString (JStr ''Token expired''))"
      by simp
    with a show False
      by simp
  qed
  have b: "responseError (http_error 400 (JObj [(''message'', JStr ''Email is required'')]))
             = Error ''Email is required''"
    by code_simp
  have c: "fixed_message 400 = ''Bad Request''"
    by code_simp
  show "\<not> (\<forall>status m.
          responseError (http_error status (JObj [(''message'', m)])) = Error (fixed_message status))"
  proof
    assume "\<forall>status m.
          responseError (http_error status (JObj [(''message'', m)])) = Error (fixed_message status)"
    then have "responseError (http_error 400 (JObj [(''message'', JStr ''Email is required'')]))
                 = Error (fixed_message 400)"
      by blast
    with b c show False
      by simp
  qed
qed

text \<open>
  Claim C9. While \<open>isProcessing\<close> is true \<open>handleSubmit\<close> changes nothing: the history,
  the calls sent and the input text stay as they are. The text is kept nowhere else, and
  the handler's continuation sends no call when the first query settles, so the
  submission is dropped.
\<close>

theorem handleSubmit_while_processing:
  assumes "isProcessing (nlq c)"
  shows "handleSubmit now stamp stamp' c = c
       \<and> queryHistory (nlq (handleSubmit now stamp stamp' c)) = queryHistory (nlq c)
       \<and> requests (handleSubmit now stamp stamp' c) = requests c
       \<and> requests (handleSettled now2 stamp2 stamp2' query outcome (handleSubmit now stamp stamp' c))
           = requests c"
proof -
  have "handleSubmit now stamp stamp' c = c"
    using assms by (simp add: handleSubmit_def)
  moreover have "requests (handleSettled now2 stamp2 stamp2' query outcome c) = requests c"
    by (simp add: handleSettled_def fail_query_def Let_def split: sum.split)
  ultimately show ?thesis
    by simp
qed

theorem handleSubmit_while_processing_witness:
  "isProcessing (nlq (handleSubmit 1 ''t1'' ''t1'' (initial_chat\<lparr>inputValue := ''top customers''\<rparr>)))
   \<and> length (requests (handleSubmit 1 ''t1'' ''t1'' (initial_chat\<lparr>inputValue := ''top customers''\<rparr>))) = 1
   \<and> length (queryHistory (nlq (handleSubmit 1 ''t1'' ''t1'' (initial_chat\<lparr>inputValue := ''top customers''\<rparr>)))) = 1
   \<and> handleSubmit 2 ''t2'' ''t2''
        ((handleSubmit 1 ''t1'' ''t1'' (initial_chat\<lparr>inputValue := ''top customers''\<rparr>))
           \<lparr>inputValue := ''revenue last week''\<rparr>)
      = (handleSubmit 1 ''t1'' ''t1'' (initial_chat\<lparr>inputValue := ''top customers''\<rparr>))
           \<lparr>inputValue := ''revenue last week''\<rparr>"
proof -
  let ?c1 = "handleSubmit 1 ''t1'' ''t1'' (initial_chat\<lparr>inputValue := ''top customers''\<rparr>)"
  let ?c2 = "?c1\<lparr>inputValue := ''revenue last week''\<rparr>"
  have tr: "trim ''top customers'' = ''top customers''"
    by code_simp
  have busy: "isProcessing (nlq ?c1)"
    by (simp add: handleSubmit_def initial_chat_def initial_store_def tr Let_def
          addToHistory_def clearResult_def setProcessing_def setCurrentQuery_def)
  then have busy2: "isProcessing (nlq ?c2)"
    by simp
  have one: "length (requests ?c1) = 1 \<and> length (queryHistory (nlq ?c1)) = 1"
    by (simp add: handleSubmit_def initial_chat_def initial_store_def tr Let_def
          addToHistory_def clearResult_def setProcessing_def setCurrentQuery_def)
  from handleSubmit_while_processing [OF busy2, of 2 "''t2''" "''t2''"] busy one
  show ?thesis
    by simp
qed

end
